theory Spec2Isabelle
  imports Complex_Main "HOL-Library.Word"
begin

section \<open>Detections and the one-shot endpoints (routes/predict.py)\<close>

text \<open>
  A raw detection is the dictionary the inference engine returns; the response model
  \<open>Detection\<close> of models/detection.py has the same six fields. Confidences and times
  are Python floats; they are only compared here, never computed with, so they are
  modelled as reals.
\<close>

record detection =
  scientific_name :: string
  common_name :: string
  label :: string
  confidence :: real
  start_time :: real
  end_time :: real

datatype py_error = HTTPException nat string | ValidationError

text \<open>
  \<open>sorted(detections, key=lambda d: d["confidence"], reverse=True)\<close>: Python's sort
  is stable also with \<open>reverse=True\<close>, so detections of equal confidence keep their
  original order. A stable ascending sort on the negated key is the same list.
\<close>

definition sorted_reverse :: "detection list \<Rightarrow> detection list" where
  "sorted_reverse detections = sort_key (\<lambda>d. - confidence d) detections"

text \<open>
  The loop of lines 112-115 and 214-217. The dictionary \<open>best_per_species\<close> keeps
  insertion order, which the returned list shows, so it is an association list that
  grows at the end.
\<close>

fun best_per_species_loop ::
  "detection list \<Rightarrow> (string \<times> detection) list \<Rightarrow> (string \<times> detection) list" where
  "best_per_species_loop [] best_per_species = best_per_species"
| "best_per_species_loop (det # rest) best_per_species =
     (let species = scientific_name det in
      if map_of best_per_species species = None
      then best_per_species_loop rest (best_per_species @ [(species, det)])
      else best_per_species_loop rest best_per_species)"

text \<open>
  \<open>Detection(**det)\<close>: the model's only constraint is \<open>confidence\<close> in [0, 1];
  outside it pydantic raises a validation error.
\<close>

definition Detection :: "detection \<Rightarrow> py_error + detection" where
  "Detection det =
     (if 0 \<le> confidence det \<and> confidence det \<le> 1 then Inr det else Inl ValidationError)"

text \<open>The list comprehension of lines 117 and 219: the first failing element raises.\<close>

fun detection_models :: "detection list \<Rightarrow> py_error + detection list" where
  "detection_models [] = Inr []"
| "detection_models (det # rest) =
     (case Detection det of
        Inl e \<Rightarrow> Inl e
      | Inr m \<Rightarrow> (case detection_models rest of Inl e \<Rightarrow> Inl e | Inr ms \<Rightarrow> Inr (m # ms)))"

text \<open>Lines 110-117 of \<open>predict_from_file\<close>, the same as 212-219 of \<open>predict_from_stream\<close>.\<close>

definition best_detections :: "detection list \<Rightarrow> py_error + detection list" where
  "best_detections detections =
     (let sorted_detections = sorted_reverse detections;
          best_per_species = best_per_species_loop sorted_detections []
      in detection_models (map snd best_per_species))"

text \<open>
  The two endpoints. What the file system and the engine do is given from outside:
  \<open>save_error\<close> is the exception of writing the upload (if any), \<open>analysis\<close> the outcome
  of \<open>Recording(...).analyze()\<close>. Request validation, the bearer token, the rate limit
  and the removal of the uploaded file are not part of this model.
\<close>

definition predict_from_file ::
  "string option \<Rightarrow> string + detection list \<Rightarrow> py_error + detection list" where
  "predict_from_file save_error analysis =
     (case save_error of
        Some e \<Rightarrow> Inl (HTTPException 500 (''Failed to save uploaded file: '' @ e))
      | None \<Rightarrow>
          (case analysis of
             Inl e \<Rightarrow> Inl (HTTPException 500 (''BirdNET analysis failed: '' @ e))
           | Inr detections \<Rightarrow> best_detections detections))"

definition predict_from_stream ::
  "string option \<Rightarrow> string + detection list \<Rightarrow> py_error + detection list" where
  "predict_from_stream save_error analysis =
     (case save_error of
        Some e \<Rightarrow> Inl (HTTPException 500 (''Failed to save stream data: '' @ e))
      | None \<Rightarrow>
          (case analysis of
             Inl e \<Rightarrow> Inl (HTTPException 500 (''BirdNET analysis failed: '' @ e))
           | Inr raw_detections \<Rightarrow> best_detections raw_detections))"

section \<open>The streaming session (routes/streaming.py)\<close>

subsection \<open>Data\<close>

type_synonym byte = "8 word"
type_synonym path = string
type_synonym date = string

text \<open>What \<open>write_temp_wav\<close> puts into a file through the \<open>wave\<close> module.\<close>

record wav_file =
  nchannels :: nat
  sampwidth :: nat
  framerate :: nat
  frames :: "byte list"

text \<open>
  Everything the server puts on the transport, oldest first: the handshake, the JSON
  messages of \<open>send_json\<close> and the close frames with their codes.
\<close>

datatype json_msg = ErrorMsg string | TimeoutMsg | DetectionsMsg "detection list"

datatype out = Accept | SendJson json_msg | Close nat

definition WS_1000_NORMAL_CLOSURE :: nat where "WS_1000_NORMAL_CLOSURE = 1000"
definition WS_1008_POLICY_VIOLATION :: nat where "WS_1008_POLICY_VIOLATION = 1008"
definition WS_1011_INTERNAL_ERROR :: nat where "WS_1011_INTERNAL_ERROR = 1011"

definition SAMPLE_RATE :: nat where "SAMPLE_RATE = 48000"
definition CHANNELS :: nat where "CHANNELS = 1"
definition SAMPLE_WIDTH :: nat where "SAMPLE_WIDTH = 2"
definition WINDOW_SECONDS :: nat where "WINDOW_SECONDS = 3"
definition WINDOW_BYTES :: nat where
  "WINDOW_BYTES = SAMPLE_RATE * CHANNELS * SAMPLE_WIDTH * WINDOW_SECONDS"

text \<open>
  The world outside the handler. \<open>EXPECTED_TOKEN\<close> comes from the module \<open>auth\<close>.
  \<open>wav_write\<close> says what creating and writing the temporary file does for given
  audio: it works, or \<open>NamedTemporaryFile\<close> raises before a file exists, or the file
  is created and the \<open>wave\<close> calls raise afterwards. \<open>analyze\<close> is the engine behind
  \<open>Recording(...).analyze()\<close>: detections, or the text of the exception it raises.
  \<open>tmp_name n\<close> is the name \<open>NamedTemporaryFile\<close> picks for the \<open>n\<close>-th file.
\<close>

datatype wav_outcome = WriteOk | CreateFails string | WriteFails string

record env =
  EXPECTED_TOKEN :: string
  utc_today :: date
  tmp_name :: "nat \<Rightarrow> path"
  wav_write :: "byte list \<Rightarrow> wav_outcome"
  analyze :: "wav_file \<Rightarrow> real \<Rightarrow> real \<Rightarrow> date \<Rightarrow> real \<Rightarrow> string + detection list"

text \<open>
  The state of one session. \<open>buffer\<close> and \<open>next_window_bytes\<close> are the handler's local
  variables; \<open>sent\<close> is the transport log; \<open>files\<close> are the temporary files that exist
  and \<open>tmp_count\<close> how many were created. Two logs record what the handler did:
  \<open>fired\<close> gets the threshold and the buffer length each time the test of line 188
  succeeds, \<open>calls\<close> the audio file each time the engine is invoked.
\<close>

record session =
  buffer :: "byte list"
  next_window_bytes :: nat
  sent :: "out list"
  files :: "path \<rightharpoonup> wav_file"
  tmp_count :: nat
  fired :: "(nat \<times> nat) list"
  calls :: "wav_file list"

subsection \<open>The init payload\<close>

text \<open>
  The value \<open>receive_json\<close> returned: a JSON object or something else. A key of the
  object is missing, holds a value its field accepts, or holds one it does not.
\<close>

datatype 'a field = Missing | Invalid | Value 'a

record init_fields =
  lat_field :: "real field"
  lon_field :: "real field"
  date_field :: "date field"
  min_conf_field :: "real field"
  timeout_field :: "real field"

datatype init_payload = NotMapping | Mapping init_fields

record realtime_init =
  lat :: real
  lon :: real
  date :: "date option"
  min_conf :: real
  timeout :: real

text \<open>
  One float field: its default when the key is missing (\<open>None\<close> for a required field),
  and its bounds. The result \<open>None\<close> is a validation error.
\<close>

fun float_field :: "real option \<Rightarrow> (real \<Rightarrow> bool) \<Rightarrow> real field \<Rightarrow> real option" where
  "float_field dflt ok Missing = dflt"
| "float_field dflt ok Invalid = None"
| "float_field dflt ok (Value v) = (if ok v then Some v else None)"

fun optional_field :: "'a field \<Rightarrow> 'a option option" where
  "optional_field Missing = Some None"
| "optional_field Invalid = None"
| "optional_field (Value v) = Some (Some v)"

text \<open>
  \<open>RealtimeInit(**init_payload)\<close>; \<open>None\<close> stands for any exception (a payload that
  is no mapping, or a validation error), as line 144 catches them all.
\<close>

fun RealtimeInit :: "init_payload \<Rightarrow> realtime_init option" where
  "RealtimeInit NotMapping = None"
| "RealtimeInit (Mapping f) =
     (case float_field None (\<lambda>v. - 90 \<le> v \<and> v \<le> 90) (lat_field f) of
        None \<Rightarrow> None
      | Some la \<Rightarrow>
     (case float_field None (\<lambda>v. - 180 \<le> v \<and> v \<le> 180) (lon_field f) of
        None \<Rightarrow> None
      | Some lo \<Rightarrow>
     (case optional_field (date_field f) of
        None \<Rightarrow> None
      | Some d \<Rightarrow>
     (case float_field (Some (25 / 100)) (\<lambda>v. 0 \<le> v \<and> v \<le> 1) (min_conf_field f) of
        None \<Rightarrow> None
      | Some mc \<Rightarrow>
     (case float_field (Some 30) (\<lambda>v. 1 \<le> v) (timeout_field f) of
        None \<Rightarrow> None
      | Some t \<Rightarrow>
          Some \<lparr>lat = la, lon = lo, date = d, min_conf = mc, timeout = t\<rparr>)))))"

subsection \<open>Temporary files and the engine\<close>

text \<open>
  \<open>write_temp_wav\<close>: the file is created with \<open>delete=False\<close>, so it stays when the
  \<open>wave\<close> calls raise; the exception leaves the function and the name is not
  returned. What such a file holds does not matter below; it is given no frames.
\<close>

definition write_temp_wav ::
  "env \<Rightarrow> session \<Rightarrow> byte list \<Rightarrow> nat \<Rightarrow> nat \<Rightarrow> nat \<Rightarrow> (string + path) \<times> session" where
  "write_temp_wav env s data sample_rate channels sample_width =
     (let name = tmp_name env (tmp_count s) in
      case wav_write env data of
        CreateFails e \<Rightarrow> (Inl e, s)
      | WriteFails e \<Rightarrow>
          (Inl e,
           s\<lparr>files := (files s)(name \<mapsto>
                 \<lparr>nchannels = channels, sampwidth = sample_width,
                  framerate = sample_rate, frames = []\<rparr>),
             tmp_count := Suc (tmp_count s)\<rparr>)
      | WriteOk \<Rightarrow>
          (Inr name,
           s\<lparr>files := (files s)(name \<mapsto>
                 \<lparr>nchannels = channels, sampwidth = sample_width,
                  framerate = sample_rate, frames = data\<rparr>),
             tmp_count := Suc (tmp_count s)\<rparr>))"

text \<open>
  \<open>safe_remove\<close>: \<open>os.remove\<close> raises for a file that is not there; the exception is
  logged and dropped.
\<close>

definition safe_remove :: "path \<Rightarrow> session \<Rightarrow> session" where
  "safe_remove p s =
     (case files s p of
        None \<Rightarrow> s
      | Some w \<Rightarrow> s\<lparr>files := (files s)(p := None)\<rparr>)"

text \<open>\<open>run_birdnet_on_file\<close>: the engine reads the file at the path it is given.\<close>

definition run_birdnet_on_file ::
  "env \<Rightarrow> session \<Rightarrow> path \<Rightarrow> real \<Rightarrow> real \<Rightarrow> date \<Rightarrow> real
     \<Rightarrow> (string + detection list) \<times> session" where
  "run_birdnet_on_file env s file_path la lo d mc =
     (case files s file_path of
        None \<Rightarrow> (Inl ''no such file'', s)
      | Some w \<Rightarrow> (analyze env w la lo d mc, s\<lparr>calls := calls s @ [w]\<rparr>))"

subsection \<open>The handler\<close>

text \<open>
  Lines 188-215, entered when \<open>len(buffer) >= next_window_bytes\<close>. The boolean says
  whether the loop goes on (\<open>False\<close>: the handler returned). In the \<open>except\<close> branch of
  the engine call the file is removed, the error is sent, and the \<open>finally\<close> clause
  removes the file once more on the way out.
\<close>

definition window_analysis ::
  "env \<Rightarrow> realtime_init \<Rightarrow> date \<Rightarrow> session \<Rightarrow> bool \<times> session" where
  "window_analysis env init recording_date s0 =
     (let s = s0\<lparr>fired := fired s0 @ [(next_window_bytes s0, length (buffer s0))]\<rparr> in
      case write_temp_wav env s (take (next_window_bytes s) (buffer s))
             SAMPLE_RATE CHANNELS SAMPLE_WIDTH of
        (Inl e, s1) \<Rightarrow>
          (False,
           s1\<lparr>sent := sent s1 @
              [SendJson (ErrorMsg (''I/O error: '' @ e)), Close WS_1011_INTERNAL_ERROR]\<rparr>)
      | (Inr wav_path, s1) \<Rightarrow>
          (case run_birdnet_on_file env s1 wav_path (lat init) (lon init) recording_date
                  (min_conf init) of
             (Inl e, s2) \<Rightarrow>
               (let s3 = safe_remove wav_path s2;
                    s4 = s3\<lparr>sent := sent s3 @
                      [SendJson (ErrorMsg (''BirdNET failed: '' @ e)),
                       Close WS_1011_INTERNAL_ERROR]\<rparr>
                in (False, safe_remove wav_path s4))
           | (Inr detections, s2) \<Rightarrow>
               (let s3 = safe_remove wav_path s2 in
                (True,
                 s3\<lparr>sent := sent s3 @ [SendJson (DetectionsMsg (sorted_reverse detections))],
                    next_window_bytes := next_window_bytes s3 + WINDOW_BYTES\<rparr>))))"

text \<open>
  What one turn of the \<open>while True\<close> loop meets: the clock reading of line 172 (seconds
  since \<open>start_time\<close>) and what the wait of line 179 ends with: a binary message, the
  one-second poll timeout, a disconnect, or another exception of \<open>receive_bytes\<close>,
  which only the handler of line 219 catches.
\<close>

datatype recv = Chunk "byte list" | PollTimeout | Disconnect | RecvRaises string

datatype status = Returned | Waiting | Raised string

text \<open>
  The loop of lines 171-215 over the turns the environment offers. When they run out
  the handler sits in its next turn: \<open>Waiting\<close>.
\<close>

fun stream_loop ::
  "env \<Rightarrow> realtime_init \<Rightarrow> date \<Rightarrow> (real \<times> recv) list \<Rightarrow> session \<Rightarrow> status \<times> session" where
  "stream_loop env init recording_date [] s = (Waiting, s)"
| "stream_loop env init recording_date ((elapsed, r) # events) s =
     (if elapsed \<ge> timeout init
      then (Returned,
            s\<lparr>sent := sent s @ [SendJson TimeoutMsg, Close WS_1000_NORMAL_CLOSURE]\<rparr>)
      else
        (case r of
           PollTimeout \<Rightarrow> stream_loop env init recording_date events s
         | Disconnect \<Rightarrow> (Returned, s)
         | RecvRaises e \<Rightarrow>
             (Returned,
              s\<lparr>sent := sent s @
                 [SendJson (ErrorMsg (''Server error: '' @ e)), Close WS_1011_INTERNAL_ERROR]\<rparr>)
         | Chunk msg \<Rightarrow>
             (let s1 = s\<lparr>buffer := buffer s @ msg\<rparr> in
              if length (buffer s1) \<ge> next_window_bytes s1
              then (case window_analysis env init recording_date s1 of
                      (True, s2) \<Rightarrow> stream_loop env init recording_date events s2
                    | (False, s2) \<Rightarrow> (Returned, s2))
              else stream_loop env init recording_date events s1)))"

text \<open>
  What the bounded wait of line 137 ends with: a JSON value, the ten-second timeout, a
  disconnect, or another exception of \<open>receive_json\<close>, which nothing catches.
\<close>

datatype init_event = InitJson init_payload | InitTimeout | InitDisconnect | InitRaises string

text \<open>Lines 154-157: today's UTC date when the payload names none.\<close>

definition recording_date :: "env \<Rightarrow> realtime_init \<Rightarrow> date" where
  "recording_date env init = (case date init of None \<Rightarrow> utc_today env | Some d \<Rightarrow> d)"

text \<open>The session after \<open>websocket.accept()\<close>, with the loop's variables as lines 166-168 set them.\<close>

definition accepted :: session where
  "accepted = \<lparr>buffer = [], next_window_bytes = WINDOW_BYTES, sent = [Accept],
     files = Map.empty, tmp_count = 0, fired = [], calls = []\<rparr>"

definition websocket_realtime ::
  "env \<Rightarrow> string \<Rightarrow> init_event \<Rightarrow> (real \<times> recv) list \<Rightarrow> status \<times> session" where
  "websocket_realtime env token init_event events =
     (let s = accepted in
      if token \<noteq> EXPECTED_TOKEN env
      then (Returned, s\<lparr>sent := sent s @ [Close WS_1008_POLICY_VIOLATION]\<rparr>)
      else
        (case init_event of
           InitTimeout \<Rightarrow> (Returned, s\<lparr>sent := sent s @ [Close WS_1008_POLICY_VIOLATION]\<rparr>)
         | InitDisconnect \<Rightarrow> (Returned, s\<lparr>sent := sent s @ [Close WS_1008_POLICY_VIOLATION]\<rparr>)
         | InitRaises e \<Rightarrow> (Raised e, s)
         | InitJson init_payload \<Rightarrow>
             (case RealtimeInit init_payload of
                None \<Rightarrow>
                  (Returned,
                   s\<lparr>sent := sent s @
                      [SendJson (ErrorMsg ''Invalid init payload''),
                       Close WS_1008_POLICY_VIOLATION]\<rparr>)
              | Some init \<Rightarrow>
                  stream_loop env init (recording_date env init) events s)))"

text \<open>The JSON messages among what was sent.\<close>

fun messages :: "out list \<Rightarrow> json_msg list" where
  "messages [] = []"
| "messages (SendJson m # outs) = m # messages outs"
| "messages (other # outs) = messages outs"

section \<open>Notions used to state the properties\<close>

text \<open>
  An entry of \<open>best_per_species\<close> is the first detection of its species in the list
  the loop ran over.
\<close>

definition first_of_species :: "detection list \<Rightarrow> string \<times> detection \<Rightarrow> bool" where
  "first_of_species ds e \<longleftrightarrow> fst e = scientific_name (snd e) \<and>
     (\<exists>pre post. ds = pre @ snd e # post \<and> fst e \<notin> scientific_name ` set pre)"

text \<open>
The file \<open>write_temp_wav\<close> makes of a window with the handler's constants.
\<close>

definition window_wav :: "byte list \<Rightarrow> wav_file" where
  "window_wav data =
     \<lparr>nchannels = CHANNELS, sampwidth = SAMPLE_WIDTH, framerate = SAMPLE_RATE, frames = data\<rparr>"

fun is_detections :: "json_msg \<Rightarrow> bool" where
  "is_detections (DetectionsMsg ds) = True"
| "is_detections m = False"

text \<open>
  What the two logs of a session look like: the \<open>i\<close>-th firing (from 0) is at
  threshold \<open>(i + 1) * WINDOW_BYTES\<close>, with a buffer at least that long, and the
  \<open>i\<close>-th engine call got the first \<open>(i + 1) * WINDOW_BYTES\<close> bytes of the buffer.
\<close>

definition windows_ok :: "session \<Rightarrow> bool" where
  "windows_ok s \<longleftrightarrow>
     (\<forall>i<length (fired s).
        fst (fired s ! i) = Suc i * WINDOW_BYTES \<and>
        Suc i * WINDOW_BYTES \<le> snd (fired s ! i) \<and>
        snd (fired s ! i) \<le> length (buffer s)) \<and>
     length (calls s) \<le> length (fired s) \<and>
     (\<forall>i<length (calls s). calls s ! i = window_wav (take (Suc i * WINDOW_BYTES) (buffer s)))"

text \<open>
  What holds in addition while the loop is running: the next threshold is one window
  past the last firing, every firing reached the engine, only detections were sent and
  no temporary file exists.
\<close>

definition alive_inv :: "session \<Rightarrow> bool" where
  "alive_inv s \<longleftrightarrow>
     windows_ok s \<and>
     next_window_bytes s = Suc (length (fired s)) * WINDOW_BYTES \<and>
     length (calls s) = length (fired s) \<and>
     list_all is_detections (messages (sent s)) \<and>
     files s = Map.empty"

text \<open>
  The window with audio \<open>data\<close> fails: the temporary file cannot be written, or the
  engine raises on it.
\<close>

definition analysis_fails :: "env \<Rightarrow> realtime_init \<Rightarrow> date \<Rightarrow> byte list \<Rightarrow> bool" where
  "analysis_fails env init rd data =
     (case wav_write env data of
        WriteOk \<Rightarrow>
          (case analyze env (window_wav data) (lat init) (lon init) rd (min_conf init) of
             Inl e \<Rightarrow> True
           | Inr detections \<Rightarrow> False)
      | CreateFails e \<Rightarrow> True
      | WriteFails e \<Rightarrow> True)"

text \<open>
A turn of the loop that brings no audio: the poll timeout or an empty message.
\<close>

fun silent :: "recv \<Rightarrow> bool" where
  "silent PollTimeout = True"
| "silent (Chunk msg) = (msg = [])"
| "silent r = False"

fun is_chunk :: "recv \<Rightarrow> bool" where
  "is_chunk (Chunk msg) = True"
| "is_chunk r = False"

text \<open>
  Inputs for the examples: an environment where the file system works and the engine
  finds nothing, and the init payload of ws_client.py.
\<close>

definition quiet_env :: env where
  "quiet_env = \<lparr>EXPECTED_TOKEN = ''secret'', utc_today = ''2025-06-01'',
     tmp_name = (\<lambda>n. ''/tmp/tmp'' @ replicate n CHR ''x'' @ ''.wav''),
     wav_write = (\<lambda>data. WriteOk),
     analyze = (\<lambda>w la lo d mc. Inr [])\<rparr>"

definition client_payload :: init_payload where
  "client_payload = Mapping \<lparr>lat_field = Value 60, lon_field = Value 22, date_field = Missing,
     min_conf_field = Value (8 / 10), timeout_field = Value 30\<rparr>"

section \<open>The one-shot endpoints: one best detection per species\<close>

lemma loop_new:
  "scientific_name det \<notin> fst ` set acc \<Longrightarrow>
   best_per_species_loop (det # rest) acc = best_per_species_loop rest (acc @ [(scientific_name det, det)])"
  by (simp add: Let_def map_of_eq_None_iff)

lemma loop_old:
  "scientific_name det \<in> fst ` set acc \<Longrightarrow>
   best_per_species_loop (det # rest) acc = best_per_species_loop rest acc"
  by (simp add: Let_def map_of_eq_None_iff)

lemma loop_sorted:
  "sorted_wrt R (map snd acc @ ds) \<Longrightarrow> sorted_wrt R (map snd (best_per_species_loop ds acc))"
proof (induction ds arbitrary: acc)
  case Nil
  then show ?case by simp
next
  case (Cons det rest)
  show ?case
  proof (cases "scientific_name det \<in> fst ` set acc")
    case False
    from Cons.prems have "sorted_wrt R (map snd (acc @ [(scientific_name det, det)]) @ rest)"
      by simp
    then have "sorted_wrt R (map snd (best_per_species_loop rest (acc @ [(scientific_name det, det)])))"
      by (rule Cons.IH)
    then show ?thesis by (simp only: loop_new [OF False])
  next
    case True
    from Cons.prems have "sorted_wrt R (map snd acc @ rest)"
      by (auto simp: sorted_wrt_append)
    then have "sorted_wrt R (map snd (best_per_species_loop rest acc))"
      by (rule Cons.IH)
    then show ?thesis by (simp only: loop_old [OF True])
  qed
qed

lemma sorted_reverse_desc:
  "sorted_wrt (\<lambda>a b. confidence b \<le> confidence a) (sorted_reverse ds)"
proof -
  have "sorted (map (\<lambda>d. - confidence d) (sorted_reverse ds))"
    unfolding sorted_reverse_def by (rule sorted_sort_key)
  then show ?thesis
    by (simp add: sorted_map)
qed

lemma set_sorted_reverse: "set (sorted_reverse ds) = set ds"
  by (simp add: sorted_reverse_def)

lemma loop_keys:
  "fst ` set (best_per_species_loop ds acc) = fst ` set acc \<union> scientific_name ` set ds"
proof (induction ds arbitrary: acc)
  case Nil
  then show ?case by simp
next
  case (Cons det rest)
  show ?case
  proof (cases "scientific_name det \<in> fst ` set acc")
    case False
    have "fst ` set (best_per_species_loop rest (acc @ [(scientific_name det, det)]))
          = fst ` set (acc @ [(scientific_name det, det)]) \<union> scientific_name ` set rest"
      by (rule Cons.IH)
    then show ?thesis unfolding loop_new [OF False] by auto
  next
    case True
    have "fst ` set (best_per_species_loop rest acc) = fst ` set acc \<union> scientific_name ` set rest"
      by (rule Cons.IH)
    then show ?thesis unfolding loop_old [OF True] using True by auto
  qed
qed

lemma loop_distinct:
  "distinct (map fst acc) \<Longrightarrow> distinct (map fst (best_per_species_loop ds acc))"
proof (induction ds arbitrary: acc)
  case Nil
  then show ?case by simp
next
  case (Cons det rest)
  show ?case
  proof (cases "scientific_name det \<in> fst ` set acc")
    case False
    with Cons.prems have "distinct (map fst (acc @ [(scientific_name det, det)]))"
      by simp
    then have "distinct (map fst (best_per_species_loop rest (acc @ [(scientific_name det, det)])))"
      by (rule Cons.IH)
    then show ?thesis by (simp only: loop_new [OF False])
  next
    case True
    from Cons.prems have "distinct (map fst (best_per_species_loop rest acc))"
      by (rule Cons.IH)
    then show ?thesis by (simp only: loop_old [OF True])
  qed
qed

lemma first_of_species_head: "first_of_species (det # rest) (scientific_name det, det)"
proof -
  have "det # rest = [] @ det # rest" by simp
  moreover have "scientific_name det \<notin> scientific_name ` set []" by simp
  ultimately show ?thesis
    unfolding first_of_species_def fst_conv snd_conv by blast
qed

lemma first_of_species_tail:
  assumes "first_of_species rest e" and "fst e \<noteq> scientific_name det"
  shows "first_of_species (det # rest) e"
proof -
  from assms(1) obtain pre post where
    k: "fst e = scientific_name (snd e)" and
    r: "rest = pre @ snd e # post" and
    n: "fst e \<notin> scientific_name ` set pre"
    unfolding first_of_species_def by blast
  have "det # rest = (det # pre) @ snd e # post"
    using r by simp
  moreover have "fst e \<notin> scientific_name ` set (det # pre)"
    using n assms(2) by simp
  ultimately show ?thesis
    unfolding first_of_species_def using k by blast
qed

lemma loop_entries:
  "e \<in> set (best_per_species_loop ds acc) \<Longrightarrow>
   e \<in> set acc \<or> (fst e \<notin> fst ` set acc \<and> first_of_species ds e)"
proof (induction ds arbitrary: acc)
  case Nil
  then show ?case by simp
next
  case (Cons det rest)
  show ?case
  proof (cases "scientific_name det \<in> fst ` set acc")
    case False
    from Cons.prems
    have "e \<in> set (best_per_species_loop rest (acc @ [(scientific_name det, det)]))"
      by (simp only: loop_new [OF False])
    then have "e \<in> set (acc @ [(scientific_name det, det)]) \<or>
       (fst e \<notin> fst ` set (acc @ [(scientific_name det, det)]) \<and> first_of_species rest e)"
      by (rule Cons.IH)
    then consider "e \<in> set acc" | "e = (scientific_name det, det)"
      | "fst e \<notin> fst ` set acc" "fst e \<noteq> scientific_name det" "first_of_species rest e"
      by auto
    then show ?thesis
    proof cases
      case 1
      then show ?thesis by simp
    next
      case 2
      then show ?thesis using False first_of_species_head by simp
    next
      case 3
      then show ?thesis using first_of_species_tail by simp
    qed
  next
    case True
    from Cons.prems have "e \<in> set (best_per_species_loop rest acc)"
      by (simp only: loop_old [OF True])
    then have "e \<in> set acc \<or> (fst e \<notin> fst ` set acc \<and> first_of_species rest e)"
      by (rule Cons.IH)
    then consider "e \<in> set acc" | "fst e \<notin> fst ` set acc" "first_of_species rest e"
      by auto
    then show ?thesis
    proof cases
      case 1
      then show ?thesis by simp
    next
      case 2
      from 2(1) True have "fst e \<noteq> scientific_name det" by metis
      then show ?thesis using 2 first_of_species_tail by simp
    qed
  qed
qed

lemma detection_models_valid:
  "\<forall>d\<in>set ds. 0 \<le> confidence d \<and> confidence d \<le> 1 \<Longrightarrow> detection_models ds = Inr ds"
  by (induction ds) (auto simp: Detection_def)

lemma first_of_species_best:
  assumes "sorted_wrt (\<lambda>a b. confidence b \<le> confidence a) ds"
    and "first_of_species ds e" and "d \<in> set ds" and "scientific_name d = fst e"
  shows "confidence d \<le> confidence (snd e)"
proof -
  from assms(2) obtain pre post where
    r: "ds = pre @ snd e # post" and
    n: "fst e \<notin> scientific_name ` set pre"
    unfolding first_of_species_def by blast
  from n assms(4) have "d \<notin> set pre" by (metis imageI)
  with assms(3) r have "d = snd e \<or> d \<in> set post" by auto
  moreover from assms(1) r have "\<forall>x\<in>set post. confidence x \<le> confidence (snd e)"
    by (simp add: sorted_wrt_append)
  ultimately show ?thesis by auto
qed

lemma best_entries:
  assumes "e \<in> set (best_per_species_loop (sorted_reverse raw) [])"
  shows "snd e \<in> set raw \<and> fst e = scientific_name (snd e) \<and>
    (\<forall>d\<in>set raw. scientific_name d = fst e \<longrightarrow> confidence d \<le> confidence (snd e))"
proof -
  from assms have f: "first_of_species (sorted_reverse raw) e"
    using loop_entries [of e "sorted_reverse raw" "[]"] by simp
  then have "snd e \<in> set (sorted_reverse raw)" and k: "fst e = scientific_name (snd e)"
    unfolding first_of_species_def by auto
  then have "snd e \<in> set raw" by (simp add: set_sorted_reverse)
  moreover have "confidence d \<le> confidence (snd e)"
    if "d \<in> set raw" "scientific_name d = fst e" for d
    using first_of_species_best [OF sorted_reverse_desc f] that by (simp add: set_sorted_reverse)
  ultimately show ?thesis using k by blast
qed

lemma detection_models_Inr: "detection_models ds = Inr out \<Longrightarrow> out = ds"
  by (induction ds arbitrary: out) (auto simp: Detection_def split: if_splits sum.splits)

lemma predict_from_file_ok: "predict_from_file None (Inr raw) = best_detections raw"
  by (simp add: predict_from_file_def)

lemma predict_from_stream_ok: "predict_from_stream None (Inr raw) = best_detections raw"
  by (simp add: predict_from_stream_def)

lemma predict_from_file_Inr:
  "predict_from_file save_error analysis = Inr out \<Longrightarrow> \<exists>raw. best_detections raw = Inr out"
  by (auto simp: predict_from_file_def split: option.splits sum.splits)

lemma predict_from_stream_Inr:
  "predict_from_stream save_error analysis = Inr out \<Longrightarrow> \<exists>raw. best_detections raw = Inr out"
  by (auto simp: predict_from_stream_def split: option.splits sum.splits)

lemma best_detections_sorted:
  assumes "best_detections raw = Inr out"
  shows "sorted_wrt (\<lambda>a b. confidence b \<le> confidence a) out"
proof -
  from assms have "out = map snd (best_per_species_loop (sorted_reverse raw) [])"
    by (simp add: best_detections_def Let_def detection_models_Inr)
  moreover have "sorted_wrt (\<lambda>a b. confidence b \<le> confidence a)
      (map snd (best_per_species_loop (sorted_reverse raw) []))"
    using loop_sorted [of _ "[]" "sorted_reverse raw"] sorted_reverse_desc by simp
  ultimately show ?thesis by simp
qed

text \<open>
  C7. For raw detections with confidences in [0, 1], as the engine produces them, both
  one-shot endpoints return the same list; it has exactly one entry per scientific name
  that occurs in the raw list, each entry is one of the raw detections, and no raw
  detection of the same species has a higher confidence.
\<close>

theorem one_shot_best_per_species:
  assumes "\<forall>d\<in>set raw. 0 \<le> confidence d \<and> confidence d \<le> 1"
  shows "\<exists>out. predict_from_file None (Inr raw) = Inr out
     \<and> predict_from_stream None (Inr raw) = Inr out
     \<and> distinct (map scientific_name out)
     \<and> scientific_name ` set out = scientific_name ` set raw
     \<and> (\<forall>e\<in>set out. e \<in> set raw
          \<and> (\<forall>d\<in>set raw. scientific_name d = scientific_name e \<longrightarrow> confidence d \<le> confidence e))"
proof -
  define best where "best = best_per_species_loop (sorted_reverse raw) []"
  define out where "out = map snd best"
  have entries: "snd e \<in> set raw \<and> fst e = scientific_name (snd e) \<and>
      (\<forall>d\<in>set raw. scientific_name d = fst e \<longrightarrow> confidence d \<le> confidence (snd e))"
    if "e \<in> set best" for e
    using that best_entries unfolding best_def by blast
  have names: "map scientific_name out = map fst best"
    unfolding out_def using entries by simp
  have "set out \<subseteq> set raw"
    unfolding out_def using entries by auto
  with assms have "detection_models out = Inr out"
    by (intro detection_models_valid) blast
  then have run: "best_detections raw = Inr out"
    by (simp add: best_detections_def Let_def best_def out_def)
  have "distinct (map fst best)"
    unfolding best_def by (rule loop_distinct) simp
  then have d: "distinct (map scientific_name out)"
    by (simp only: names)
  have "fst ` set best = scientific_name ` set raw"
    unfolding best_def by (simp add: loop_keys set_sorted_reverse)
  moreover have "scientific_name ` set out = set (map scientific_name out)"
    by simp
  ultimately have k: "scientific_name ` set out = scientific_name ` set raw"
    by (simp only: names set_map)
  have b: "\<forall>e\<in>set out. e \<in> set raw
          \<and> (\<forall>d\<in>set raw. scientific_name d = scientific_name e \<longrightarrow> confidence d \<le> confidence e)"
  proof
    fix e assume "e \<in> set out"
    then obtain p where "p \<in> set best" "e = snd p"
      unfolding out_def by auto
    then show "e \<in> set raw
          \<and> (\<forall>d\<in>set raw. scientific_name d = scientific_name e \<longrightarrow> confidence d \<le> confidence e)"
      using entries [of p] by simp
  qed
  show ?thesis
    using run d k b by (auto simp only: predict_from_file_ok predict_from_stream_ok)
qed

text \<open>
The example of the specification: A at 0.9, A at 0.4, B at 0.6 give A at 0.9 and B at 0.6.
\<close>

theorem one_shot_best_per_species_example:
  "predict_from_file None (Inr
      [\<lparr>scientific_name = ''A'', common_name = ''a'', label = ''A_a'', confidence = 9/10, start_time = 0, end_time = 3\<rparr>,
       \<lparr>scientific_name = ''A'', common_name = ''a'', label = ''A_a'', confidence = 4/10, start_time = 3, end_time = 6\<rparr>,
       \<lparr>scientific_name = ''B'', common_name = ''b'', label = ''B_b'', confidence = 6/10, start_time = 0, end_time = 3\<rparr>])
   = Inr
      [\<lparr>scientific_name = ''A'', common_name = ''a'', label = ''A_a'', confidence = 9/10, start_time = 0, end_time = 3\<rparr>,
       \<lparr>scientific_name = ''B'', common_name = ''b'', label = ''B_b'', confidence = 6/10, start_time = 0, end_time = 3\<rparr>]"
  using one_shot_best_per_species [of
      "[\<lparr>scientific_name = ''A'', common_name = ''a'', label = ''A_a'', confidence = 9/10, start_time = 0, end_time = 3\<rparr>,
       \<lparr>scientific_name = ''A'', common_name = ''a'', label = ''A_a'', confidence = 4/10, start_time = 3, end_time = 6\<rparr>,
       \<lparr>scientific_name = ''B'', common_name = ''b'', label = ''B_b'', confidence = 6/10, start_time = 0, end_time = 3\<rparr>]"]
  by (simp add: predict_from_file_def best_detections_def sorted_reverse_def Detection_def Let_def)

text \<open>
  C10. Whatever a one-shot endpoint returns as its list of detections is ordered by
  non-increasing confidence.
\<close>

theorem one_shot_descending:
  "(predict_from_file save_error analysis = Inr out
      \<longrightarrow> sorted_wrt (\<lambda>a b. confidence b \<le> confidence a) out)
   \<and> (predict_from_stream save_error analysis = Inr out
      \<longrightarrow> sorted_wrt (\<lambda>a b. confidence b \<le> confidence a) out)"
  using predict_from_file_Inr predict_from_stream_Inr best_detections_sorted by blast

text \<open>
Raw detections in another order: B at 0.6, A at 0.4, A at 0.9.
\<close>

theorem one_shot_descending_example:
  "predict_from_stream None (Inr
      [\<lparr>scientific_name = ''B'', common_name = ''b'', label = ''B_b'', confidence = 6/10, start_time = 0, end_time = 3\<rparr>,
       \<lparr>scientific_name = ''A'', common_name = ''a'', label = ''A_a'', confidence = 4/10, start_time = 3, end_time = 6\<rparr>,
       \<lparr>scientific_name = ''A'', common_name = ''a'', label = ''A_a'', confidence = 9/10, start_time = 6, end_time = 9\<rparr>])
   = Inr
      [\<lparr>scientific_name = ''A'', common_name = ''a'', label = ''A_a'', confidence = 9/10, start_time = 6, end_time = 9\<rparr>,
       \<lparr>scientific_name = ''B'', common_name = ''b'', label = ''B_b'', confidence = 6/10, start_time = 0, end_time = 3\<rparr>]
   \<and> sorted_wrt (\<lambda>a b. confidence b \<le> confidence a)
      [\<lparr>scientific_name = ''A'', common_name = ''a'', label = ''A_a'', confidence = 9/10, start_time = 6, end_time = 9\<rparr>,
       \<lparr>scientific_name = ''B'', common_name = ''b'', label = ''B_b'', confidence = 6/10, start_time = 0, end_time = 3\<rparr>]"
proof -
  have run: "predict_from_stream None (Inr
      [\<lparr>scientific_name = ''B'', common_name = ''b'', label = ''B_b'', confidence = 6/10, start_time = 0, end_time = 3\<rparr>,
       \<lparr>scientific_name = ''A'', common_name = ''a'', label = ''A_a'', confidence = 4/10, start_time = 3, end_time = 6\<rparr>,
       \<lparr>scientific_name = ''A'', common_name = ''a'', label = ''A_a'', confidence = 9/10, start_time = 6, end_time = 9\<rparr>])
   = Inr
      [\<lparr>scientific_name = ''A'', common_name = ''a'', label = ''A_a'', confidence = 9/10, start_time = 6, end_time = 9\<rparr>,
       \<lparr>scientific_name = ''B'', common_name = ''b'', label = ''B_b'', confidence = 6/10, start_time = 0, end_time = 3\<rparr>]"
    by (simp add: predict_from_stream_def best_detections_def sorted_reverse_def Detection_def Let_def)
  from one_shot_descending have "predict_from_stream None (Inr
      [\<lparr>scientific_name = ''B'', common_name = ''b'', label = ''B_b'', confidence = 6/10, start_time = 0, end_time = 3\<rparr>,
       \<lparr>scientific_name = ''A'', common_name = ''a'', label = ''A_a'', confidence = 4/10, start_time = 3, end_time = 6\<rparr>,
       \<lparr>scientific_name = ''A'', common_name = ''a'', label = ''A_a'', confidence = 9/10, start_time = 6, end_time = 9\<rparr>])
   = Inr
      [\<lparr>scientific_name = ''A'', common_name = ''a'', label = ''A_a'', confidence = 9/10, start_time = 6, end_time = 9\<rparr>,
       \<lparr>scientific_name = ''B'', common_name = ''b'', label = ''B_b'', confidence = 6/10, start_time = 0, end_time = 3\<rparr>]
   \<longrightarrow> sorted_wrt (\<lambda>a b. confidence b \<le> confidence a)
      [\<lparr>scientific_name = ''A'', common_name = ''a'', label = ''A_a'', confidence = 9/10, start_time = 6, end_time = 9\<rparr>,
       \<lparr>scientific_name = ''B'', common_name = ''b'', label = ''B_b'', confidence = 6/10, start_time = 0, end_time = 3\<rparr>]"
    by (rule conjunct2)
  with run show ?thesis by blast
qed

section \<open>The streaming loop, turn by turn\<close>

declare stream_loop.simps(2) [simp del]

lemma WINDOW_BYTES_eq: "WINDOW_BYTES = 288000"
  by (simp add: WINDOW_BYTES_def SAMPLE_RATE_def CHANNELS_def SAMPLE_WIDTH_def WINDOW_SECONDS_def)

lemma stream_loop_timeout:
  "timeout init \<le> elapsed \<Longrightarrow>
   stream_loop env init rd ((elapsed, r) # events) s =
     (Returned, s\<lparr>sent := sent s @ [SendJson TimeoutMsg, Close WS_1000_NORMAL_CLOSURE]\<rparr>)"
  by (simp add: stream_loop.simps(2))

lemma stream_loop_poll:
  "elapsed < timeout init \<Longrightarrow>
   stream_loop env init rd ((elapsed, PollTimeout) # events) s = stream_loop env init rd events s"
  by (simp add: stream_loop.simps(2))

lemma stream_loop_disconnect:
  "elapsed < timeout init \<Longrightarrow>
   stream_loop env init rd ((elapsed, Disconnect) # events) s = (Returned, s)"
  by (simp add: stream_loop.simps(2))

lemma stream_loop_raises:
  "elapsed < timeout init \<Longrightarrow>
   stream_loop env init rd ((elapsed, RecvRaises e) # events) s =
     (Returned, s\<lparr>sent := sent s @
        [SendJson (ErrorMsg (''Server error: '' @ e)), Close WS_1011_INTERNAL_ERROR]\<rparr>)"
  by (simp add: stream_loop.simps(2))

lemma stream_loop_chunk_below:
  "elapsed < timeout init \<Longrightarrow> length (buffer s) + length msg < next_window_bytes s \<Longrightarrow>
   stream_loop env init rd ((elapsed, Chunk msg) # events) s =
     stream_loop env init rd events (s\<lparr>buffer := buffer s @ msg\<rparr>)"
  by (simp add: stream_loop.simps(2) Let_def)

lemma stream_loop_chunk_fire:
  "elapsed < timeout init \<Longrightarrow> next_window_bytes s \<le> length (buffer s) + length msg \<Longrightarrow>
   stream_loop env init rd ((elapsed, Chunk msg) # events) s =
     (case window_analysis env init rd (s\<lparr>buffer := buffer s @ msg\<rparr>) of
        (True, s2) \<Rightarrow> stream_loop env init rd events s2
      | (False, s2) \<Rightarrow> (Returned, s2))"
  by (simp add: stream_loop.simps(2) Let_def)

text \<open>
A run that is still waiting goes on from its state when more turns follow.
\<close>

lemma stream_loop_append:
  "stream_loop env init rd pre s0 = (Waiting, s) \<Longrightarrow>
   stream_loop env init rd (pre @ events) s0 = stream_loop env init rd events s"
proof (induction pre arbitrary: s0)
  case Nil
  then show ?case by simp
next
  case (Cons ev pre)
  obtain elapsed r where ev: "ev = (elapsed, r)" by (cases ev)
  show ?case
  proof (cases "timeout init \<le> elapsed")
    case True
    with Cons.prems ev show ?thesis by (simp add: stream_loop_timeout)
  next
    case False
    then have lt: "elapsed < timeout init" by simp
    show ?thesis
    proof (cases r)
      case (Chunk msg)
      show ?thesis
      proof (cases "next_window_bytes s0 \<le> length (buffer s0) + length msg")
        case True
        obtain b s2 where w: "window_analysis env init rd (s0\<lparr>buffer := buffer s0 @ msg\<rparr>) = (b, s2)"
          by (cases "window_analysis env init rd (s0\<lparr>buffer := buffer s0 @ msg\<rparr>)")
        show ?thesis
        proof (cases b)
          case True
          with Cons.prems ev Chunk w lt \<open>next_window_bytes s0 \<le> length (buffer s0) + length msg\<close>
          have "stream_loop env init rd pre s2 = (Waiting, s)"
            by (simp add: stream_loop_chunk_fire)
          then have "stream_loop env init rd (pre @ events) s2 = stream_loop env init rd events s"
            by (rule Cons.IH)
          with True ev Chunk w lt \<open>next_window_bytes s0 \<le> length (buffer s0) + length msg\<close>
          show ?thesis by (simp add: stream_loop_chunk_fire)
        next
          case False
          with Cons.prems ev Chunk w lt \<open>next_window_bytes s0 \<le> length (buffer s0) + length msg\<close>
          show ?thesis by (simp add: stream_loop_chunk_fire)
        qed
      next
        case False
        then have below: "length (buffer s0) + length msg < next_window_bytes s0" by simp
        with Cons.prems ev Chunk lt
        have "stream_loop env init rd pre (s0\<lparr>buffer := buffer s0 @ msg\<rparr>) = (Waiting, s)"
          by (simp add: stream_loop_chunk_below)
        then have "stream_loop env init rd (pre @ events) (s0\<lparr>buffer := buffer s0 @ msg\<rparr>)
            = stream_loop env init rd events s"
          by (rule Cons.IH)
        with ev Chunk lt below show ?thesis by (simp add: stream_loop_chunk_below)
      qed
    next
      case PollTimeout
      with Cons.prems ev lt have "stream_loop env init rd pre s0 = (Waiting, s)"
        by (simp add: stream_loop_poll)
      then have "stream_loop env init rd (pre @ events) s0 = stream_loop env init rd events s"
        by (rule Cons.IH)
      with ev PollTimeout lt show ?thesis by (simp add: stream_loop_poll)
    next
      case Disconnect
      with Cons.prems ev lt show ?thesis by (simp add: stream_loop_disconnect)
    next
      case (RecvRaises e)
      with Cons.prems ev lt show ?thesis by (simp add: stream_loop_raises)
    qed
  qed
qed

lemma realtime_streaming:
  "RealtimeInit p = Some init \<Longrightarrow>
   websocket_realtime env (EXPECTED_TOKEN env) (InitJson p) events =
     stream_loop env init (recording_date env init) events accepted"
  by (simp add: websocket_realtime_def)

subsection \<open>The four ways a window analysis can go\<close>

lemma window_create_fails:
  "wav_write env (take (next_window_bytes s) (buffer s)) = CreateFails e \<Longrightarrow>
   window_analysis env init rd s =
     (False, s\<lparr>fired := fired s @ [(next_window_bytes s, length (buffer s))],
               sent := sent s @ [SendJson (ErrorMsg (''I/O error: '' @ e)),
                                 Close WS_1011_INTERNAL_ERROR]\<rparr>)"
  by (simp add: window_analysis_def write_temp_wav_def Let_def)

lemma window_write_fails:
  "wav_write env (take (next_window_bytes s) (buffer s)) = WriteFails e \<Longrightarrow>
   window_analysis env init rd s =
     (False, s\<lparr>fired := fired s @ [(next_window_bytes s, length (buffer s))],
               files := (files s)(tmp_name env (tmp_count s) \<mapsto> window_wav []),
               tmp_count := Suc (tmp_count s),
               sent := sent s @ [SendJson (ErrorMsg (''I/O error: '' @ e)),
                                 Close WS_1011_INTERNAL_ERROR]\<rparr>)"
  by (simp add: window_analysis_def write_temp_wav_def Let_def window_wav_def)

lemma window_engine_fails:
  "wav_write env (take (next_window_bytes s) (buffer s)) = WriteOk \<Longrightarrow>
   analyze env (window_wav (take (next_window_bytes s) (buffer s)))
     (lat init) (lon init) rd (min_conf init) = Inl e \<Longrightarrow>
   window_analysis env init rd s =
     (False, s\<lparr>fired := fired s @ [(next_window_bytes s, length (buffer s))],
               files := (files s)(tmp_name env (tmp_count s) := None),
               tmp_count := Suc (tmp_count s),
               calls := calls s @ [window_wav (take (next_window_bytes s) (buffer s))],
               sent := sent s @ [SendJson (ErrorMsg (''BirdNET failed: '' @ e)),
                                 Close WS_1011_INTERNAL_ERROR]\<rparr>)"
  by (simp add: window_analysis_def write_temp_wav_def run_birdnet_on_file_def safe_remove_def
      Let_def window_wav_def)

lemma window_succeeds:
  "wav_write env (take (next_window_bytes s) (buffer s)) = WriteOk \<Longrightarrow>
   analyze env (window_wav (take (next_window_bytes s) (buffer s)))
     (lat init) (lon init) rd (min_conf init) = Inr detections \<Longrightarrow>
   window_analysis env init rd s =
     (True, s\<lparr>fired := fired s @ [(next_window_bytes s, length (buffer s))],
               files := (files s)(tmp_name env (tmp_count s) := None),
               tmp_count := Suc (tmp_count s),
               calls := calls s @ [window_wav (take (next_window_bytes s) (buffer s))],
               sent := sent s @ [SendJson (DetectionsMsg (sorted_reverse detections))],
               next_window_bytes := next_window_bytes s + WINDOW_BYTES\<rparr>)"
  by (simp add: window_analysis_def write_temp_wav_def run_birdnet_on_file_def safe_remove_def
      Let_def window_wav_def)

lemma window_cases:
  obtains (create_fails) e where "wav_write env (take (next_window_bytes s) (buffer s)) = CreateFails e"
  | (write_fails) e where "wav_write env (take (next_window_bytes s) (buffer s)) = WriteFails e"
  | (engine_fails) e where "wav_write env (take (next_window_bytes s) (buffer s)) = WriteOk"
      "analyze env (window_wav (take (next_window_bytes s) (buffer s)))
         (lat init) (lon init) rd (min_conf init) = Inl e"
  | (succeeds) detections where "wav_write env (take (next_window_bytes s) (buffer s)) = WriteOk"
      "analyze env (window_wav (take (next_window_bytes s) (buffer s)))
         (lat init) (lon init) rd (min_conf init) = Inr detections"
proof (cases "wav_write env (take (next_window_bytes s) (buffer s))")
  case WriteOk
  then show ?thesis
    by (cases "analyze env (window_wav (take (next_window_bytes s) (buffer s)))
         (lat init) (lon init) rd (min_conf init)") (auto intro: engine_fails succeeds)
next
  case (CreateFails e)
  then show ?thesis by (rule create_fails)
next
  case (WriteFails e)
  then show ?thesis by (rule write_fails)
qed

lemma window_analysis_fails:
  assumes "analysis_fails env init rd (take (next_window_bytes s) (buffer s))"
  shows "\<exists>e s'. window_analysis env init rd s = (False, s')
     \<and> sent s' = sent s @ [SendJson (ErrorMsg e), Close WS_1011_INTERNAL_ERROR]
     \<and> fired s' = fired s @ [(next_window_bytes s, length (buffer s))]
     \<and> (calls s' = calls s
          \<or> calls s' = calls s @ [window_wav (take (next_window_bytes s) (buffer s))])"
proof (cases rule: window_cases [where env = env and s = s and init = init and rd = rd])
  case (create_fails e)
  show ?thesis by (simp add: window_create_fails [OF create_fails])
next
  case (write_fails e)
  show ?thesis by (simp add: window_write_fails [OF write_fails])
next
  case (engine_fails e)
  show ?thesis by (simp add: window_engine_fails [OF engine_fails])
next
  case (succeeds detections)
  with assms show ?thesis by (simp add: analysis_fails_def)
qed

subsection \<open>Invariants of a session\<close>

lemma messages_append: "messages (xs @ ys) = messages xs @ messages ys"
  by (induction xs rule: messages.induct) simp_all

lemma windows_ok_accepted: "alive_inv accepted"
  by (simp add: alive_inv_def windows_ok_def accepted_def)

lemma windows_ok_sent: "windows_ok (s\<lparr>sent := x\<rparr>) = windows_ok s"
  by (simp add: windows_ok_def)

lemma windows_ok_extend:
  assumes "windows_ok s"
  shows "windows_ok (s\<lparr>buffer := buffer s @ msg\<rparr>)"
proof -
  from assms have fi: "fst (fired s ! i) = Suc i * WINDOW_BYTES"
    and le: "Suc i * WINDOW_BYTES \<le> snd (fired s ! i)"
    and bd: "snd (fired s ! i) \<le> length (buffer s)" if "i < length (fired s)" for i
    using that by (simp_all add: windows_ok_def)
  from assms have cf: "length (calls s) \<le> length (fired s)"
    by (simp add: windows_ok_def)
  from assms have ca: "calls s ! i = window_wav (take (Suc i * WINDOW_BYTES) (buffer s))"
      if "i < length (calls s)" for i
    using that by (simp add: windows_ok_def)
  have "calls s ! i = window_wav (take (Suc i * WINDOW_BYTES) (buffer s @ msg))"
    if "i < length (calls s)" for i
  proof -
    from that cf have "i < length (fired s)" by simp
    then have "Suc i * WINDOW_BYTES \<le> length (buffer s)"
      using fi [of i] le [of i] bd [of i] by simp
    then have "take (Suc i * WINDOW_BYTES) (buffer s @ msg) = take (Suc i * WINDOW_BYTES) (buffer s)"
      by simp
    with ca [OF that] show ?thesis by (simp only:)
  qed
  moreover have "snd (fired s ! i) \<le> length (buffer s @ msg)"
    if "i < length (fired s)" for i
    using bd [OF that] by simp
  ultimately show ?thesis
    unfolding windows_ok_def using fi le cf by simp
qed

lemma alive_inv_extend: "alive_inv s \<Longrightarrow> alive_inv (s\<lparr>buffer := buffer s @ msg\<rparr>)"
  using windows_ok_extend [of s msg] by (simp add: alive_inv_def)

lemma windows_ok_fire:
  assumes "windows_ok s"
    and "next_window_bytes s = Suc (length (fired s)) * WINDOW_BYTES"
    and "next_window_bytes s \<le> length (buffer s)"
  shows "windows_ok (s\<lparr>fired := fired s @ [(next_window_bytes s, length (buffer s))]\<rparr>)"
  using assms by (auto simp: windows_ok_def nth_append less_Suc_eq)

lemma windows_ok_call:
  assumes "windows_ok s"
    and "next_window_bytes s = Suc (length (fired s)) * WINDOW_BYTES"
    and "length (calls s) = length (fired s)"
    and "next_window_bytes s \<le> length (buffer s)"
  shows "windows_ok (s\<lparr>fired := fired s @ [(next_window_bytes s, length (buffer s))],
           calls := calls s @ [window_wav (take (next_window_bytes s) (buffer s))]\<rparr>)"
  using assms by (auto simp: windows_ok_def nth_append less_Suc_eq)

lemma windows_ok_threshold:
  assumes "windows_ok s" and "i < length (fired s)"
  shows "fst (fired s ! i) = Suc i * WINDOW_BYTES" and "fst (fired s ! i) \<le> snd (fired s ! i)"
    and "Suc i * WINDOW_BYTES \<le> length (buffer s)"
  using assms by (simp_all add: windows_ok_def) (metis order_trans)

lemma window_analysis_inv:
  assumes "alive_inv s" and "next_window_bytes s \<le> length (buffer s)"
    and "window_analysis env init rd s = (b, s')"
  shows "windows_ok s' \<and> (b \<longrightarrow> alive_inv s')
    \<and> (files s' = Map.empty \<or> (\<exists>data e. wav_write env data = WriteFails e))"
proof -
  from assms(1) have w: "windows_ok s"
    and n: "next_window_bytes s = Suc (length (fired s)) * WINDOW_BYTES"
    and c: "length (calls s) = length (fired s)"
    and m: "list_all is_detections (messages (sent s))"
    and f: "files s = Map.empty"
    by (simp_all add: alive_inv_def)
  note fire = windows_ok_fire [OF w n assms(2)]
  note call = windows_ok_call [OF w n c assms(2)]
  show ?thesis
  proof (cases rule: window_cases [where env = env and s = s and init = init and rd = rd])
    case (create_fails e)
    from assms(3) fire f show ?thesis
      by (auto simp: window_create_fails [OF create_fails] windows_ok_def)
  next
    case (write_fails e)
    from assms(3) fire have "windows_ok s'" "\<not> b"
      by (auto simp: window_write_fails [OF write_fails] windows_ok_def)
    with write_fails show ?thesis by blast
  next
    case (engine_fails e)
    from assms(3) call f show ?thesis
      by (auto simp: window_engine_fails [OF engine_fails] windows_ok_def)
  next
    case (succeeds detections)
    from assms(3) have s': "s' = s\<lparr>fired := fired s @ [(next_window_bytes s, length (buffer s))],
               files := (files s)(tmp_name env (tmp_count s) := None),
               tmp_count := Suc (tmp_count s),
               calls := calls s @ [window_wav (take (next_window_bytes s) (buffer s))],
               sent := sent s @ [SendJson (DetectionsMsg (sorted_reverse detections))],
               next_window_bytes := next_window_bytes s + WINDOW_BYTES\<rparr>"
      by (simp add: window_succeeds [OF succeeds])
    from call have "windows_ok s'"
      unfolding s' by (simp add: windows_ok_def)
    moreover have "next_window_bytes s' = Suc (length (fired s')) * WINDOW_BYTES"
      unfolding s' using n by simp
    moreover have "length (calls s') = length (fired s')"
      unfolding s' using c by simp
    moreover have "list_all is_detections (messages (sent s'))"
      unfolding s' using m by (simp add: messages_append)
    moreover have "files s' = Map.empty"
      unfolding s' using f by simp
    ultimately show ?thesis by (simp add: alive_inv_def)
  qed
qed

lemma stream_loop_inv:
  "alive_inv s \<Longrightarrow> stream_loop env init rd events s = (st, s') \<Longrightarrow>
   windows_ok s' \<and> (st = Waiting \<longrightarrow> alive_inv s')
     \<and> (files s' = Map.empty \<or> (\<exists>data e. wav_write env data = WriteFails e))"
proof (induction events arbitrary: s)
  case Nil
  then show ?case by (auto simp: alive_inv_def)
next
  case (Cons ev events)
  obtain elapsed r where ev: "ev = (elapsed, r)" by (cases ev)
  from Cons.prems(1) have w: "windows_ok s" and f: "files s = Map.empty"
    by (simp_all add: alive_inv_def)
  show ?case
  proof (cases "timeout init \<le> elapsed")
    case True
    with Cons.prems(2) ev w f show ?thesis by (auto simp: stream_loop_timeout windows_ok_sent)
  next
    case False
    then have lt: "elapsed < timeout init" by simp
    show ?thesis
    proof (cases r)
      case (Chunk msg)
      let ?s1 = "s\<lparr>buffer := buffer s @ msg\<rparr>"
      have a1: "alive_inv ?s1" using Cons.prems(1) by (rule alive_inv_extend)
      show ?thesis
      proof (cases "next_window_bytes s \<le> length (buffer s) + length msg")
        case True
        obtain b s2 where wa: "window_analysis env init rd ?s1 = (b, s2)"
          by (cases "window_analysis env init rd ?s1")
        from True have "next_window_bytes ?s1 \<le> length (buffer ?s1)" by simp
        with a1 have i2: "windows_ok s2 \<and> (b \<longrightarrow> alive_inv s2)
            \<and> (files s2 = Map.empty \<or> (\<exists>data e. wav_write env data = WriteFails e))"
          using wa by (rule window_analysis_inv)
        show ?thesis
        proof (cases b)
          case True
          with Cons.prems(2) ev Chunk wa lt \<open>next_window_bytes s \<le> length (buffer s) + length msg\<close>
          have "stream_loop env init rd events s2 = (st, s')"
            by (simp add: stream_loop_chunk_fire)
          moreover from i2 True have "alive_inv s2" by simp
          ultimately show ?thesis by (rule Cons.IH [rotated])
        next
          case False
          with Cons.prems(2) ev Chunk wa lt \<open>next_window_bytes s \<le> length (buffer s) + length msg\<close>
          have "st = Returned" "s' = s2"
            by (simp_all add: stream_loop_chunk_fire)
          with i2 show ?thesis by simp
        qed
      next
        case False
        then have below: "length (buffer s) + length msg < next_window_bytes s" by simp
        with Cons.prems(2) ev Chunk lt
        have "stream_loop env init rd events ?s1 = (st, s')"
          by (simp add: stream_loop_chunk_below)
        with a1 show ?thesis by (rule Cons.IH)
      qed
    next
      case PollTimeout
      with Cons.prems(2) ev lt have "stream_loop env init rd events s = (st, s')"
        by (simp add: stream_loop_poll)
      with Cons.prems(1) show ?thesis by (rule Cons.IH)
    next
      case Disconnect
      with Cons.prems(2) ev lt w f show ?thesis by (auto simp: stream_loop_disconnect)
    next
      case (RecvRaises e)
      with Cons.prems(2) ev lt w f show ?thesis by (auto simp: stream_loop_raises windows_ok_sent)
    qed
  qed
qed

lemma realtime_windows_ok:
  assumes "websocket_realtime env token ie events = (st, s)"
  shows "windows_ok s"
    and "files s = Map.empty \<or> (\<exists>data e. wav_write env data = WriteFails e)"
proof -
  have base: "windows_ok accepted" "files accepted = Map.empty"
    using windows_ok_accepted by (simp_all add: alive_inv_def)
  have "windows_ok s
    \<and> (files s = Map.empty \<or> (\<exists>data e. wav_write env data = WriteFails e))"
  proof (cases "\<exists>p init. token = EXPECTED_TOKEN env \<and> ie = InitJson p \<and> RealtimeInit p = Some init")
    case True
    then obtain p init where "token = EXPECTED_TOKEN env" "ie = InitJson p" "RealtimeInit p = Some init"
      by blast
    with assms have "stream_loop env init (recording_date env init) events accepted = (st, s)"
      by (simp add: realtime_streaming)
    with windows_ok_accepted show ?thesis
      using stream_loop_inv by blast
  next
    case False
    with assms base show ?thesis
      by (auto simp: websocket_realtime_def Let_def windows_ok_sent
          split: if_splits init_event.splits option.splits)
  qed
  then show "windows_ok s"
    and "files s = Map.empty \<or> (\<exists>data e. wav_write env data = WriteFails e)"
    by simp_all
qed

text \<open>
  When the \<open>wave\<close> calls never fail after the file was created, no session leaves a
  temporary file, however it ends.
\<close>

lemma temp_files_removed_unless_write_fails:
  assumes "websocket_realtime env token ie events = (st, s)"
    and "\<And>data e. wav_write env data \<noteq> WriteFails e"
  shows "files s = Map.empty"
  using realtime_windows_ok(2) [OF assms(1)] assms(2) by blast

text \<open>
  How many windows fire: at most one per received message, and at most as many as the
  buffer holds whole windows.
\<close>

lemma window_analysis_fires_once:
  "window_analysis env init rd s = (b, s') \<Longrightarrow> length (fired s') = Suc (length (fired s))"
  by (cases rule: window_cases [where env = env and s = s and init = init and rd = rd])
     (auto simp: window_create_fails window_write_fails window_engine_fails window_succeeds)

lemma stream_loop_firings:
  "stream_loop env init rd events s = (st, s') \<Longrightarrow>
   length (fired s') \<le> length (fired s) + length (filter (\<lambda>(e, r). is_chunk r) events)"
proof (induction events arbitrary: s)
  case Nil
  then show ?case by simp
next
  case (Cons ev events)
  obtain elapsed r where ev: "ev = (elapsed, r)" by (cases ev)
  show ?case
  proof (cases "timeout init \<le> elapsed")
    case True
    with Cons.prems ev show ?thesis by (auto simp: stream_loop_timeout)
  next
    case False
    then have lt: "elapsed < timeout init" by simp
    show ?thesis
    proof (cases r)
      case (Chunk msg)
      let ?s1 = "s\<lparr>buffer := buffer s @ msg\<rparr>"
      show ?thesis
      proof (cases "next_window_bytes s \<le> length (buffer s) + length msg")
        case True
        obtain b s2 where wa: "window_analysis env init rd ?s1 = (b, s2)"
          by (cases "window_analysis env init rd ?s1")
        then have one: "length (fired s2) = Suc (length (fired s))"
          using window_analysis_fires_once [OF wa] by simp
        show ?thesis
        proof (cases b)
          case True
          with Cons.prems ev Chunk wa lt \<open>next_window_bytes s \<le> length (buffer s) + length msg\<close>
          have "stream_loop env init rd events s2 = (st, s')"
            by (simp add: stream_loop_chunk_fire)
          then have "length (fired s') \<le> length (fired s2) + length (filter (\<lambda>(e, r). is_chunk r) events)"
            by (rule Cons.IH)
          with one ev Chunk show ?thesis by simp
        next
          case False
          with Cons.prems ev Chunk wa lt \<open>next_window_bytes s \<le> length (buffer s) + length msg\<close>
          have "s' = s2"
            by (simp add: stream_loop_chunk_fire)
          with one ev Chunk show ?thesis by simp
        qed
      next
        case False
        then have below: "length (buffer s) + length msg < next_window_bytes s" by simp
        with Cons.prems ev Chunk lt
        have "stream_loop env init rd events ?s1 = (st, s')"
          by (simp add: stream_loop_chunk_below)
        then have "length (fired s') \<le> length (fired ?s1) + length (filter (\<lambda>(e, r). is_chunk r) events)"
          by (rule Cons.IH)
        with ev Chunk show ?thesis by simp
      qed
    next
      case PollTimeout
      with Cons.prems ev lt have "stream_loop env init rd events s = (st, s')"
        by (simp add: stream_loop_poll)
      then have "length (fired s') \<le> length (fired s) + length (filter (\<lambda>(e, r). is_chunk r) events)"
        by (rule Cons.IH)
      with ev PollTimeout show ?thesis by simp
    next
      case Disconnect
      with Cons.prems ev lt show ?thesis by (auto simp: stream_loop_disconnect)
    next
      case (RecvRaises e)
      with Cons.prems ev lt show ?thesis by (auto simp: stream_loop_raises)
    qed
  qed
qed

lemma one_firing_per_message:
  assumes "websocket_realtime env token ie events = (st, s)"
  shows "length (fired s) \<le> length (filter (\<lambda>(e, r). is_chunk r) events)"
proof (cases "\<exists>p init. token = EXPECTED_TOKEN env \<and> ie = InitJson p \<and> RealtimeInit p = Some init")
  case True
  then obtain p init where "token = EXPECTED_TOKEN env" "ie = InitJson p" "RealtimeInit p = Some init"
    by blast
  with assms have "stream_loop env init (recording_date env init) events accepted = (st, s)"
    by (simp add: realtime_streaming)
  then show ?thesis
    using stream_loop_firings [of env init _ events accepted st s] by (simp add: accepted_def)
next
  case False
  with assms show ?thesis
    by (auto simp: websocket_realtime_def Let_def accepted_def
        split: if_splits init_event.splits option.splits)
qed

lemma firings_within_audio:
  assumes "websocket_realtime env token ie events = (st, s)"
  shows "length (fired s) \<le> length (buffer s) div 288000"
proof (cases "fired s = []")
  case True
  then show ?thesis by simp
next
  case False
  then obtain i where i: "length (fired s) = Suc i"
    by (cases "fired s") auto
  from assms have "windows_ok s" by (rule realtime_windows_ok(1))
  then have "Suc i * WINDOW_BYTES \<le> length (buffer s)"
    using i by (intro windows_ok_threshold(3)) simp_all
  then have "Suc i * 288000 \<le> length (buffer s)"
    by (simp add: WINDOW_BYTES_eq)
  then have "Suc i \<le> length (buffer s) div 288000"
    by (simp add: less_eq_div_iff_mult_less_eq)
  with i show ?thesis by simp
qed

lemmas run_simps = websocket_realtime_def stream_loop.simps(2) window_analysis_def
  write_temp_wav_def run_birdnet_on_file_def safe_remove_def accepted_def recording_date_def
  WINDOW_BYTES_def SAMPLE_RATE_def CHANNELS_def SAMPLE_WIDTH_def WINDOW_SECONDS_def
  WS_1000_NORMAL_CLOSURE_def WS_1008_POLICY_VIOLATION_def WS_1011_INTERNAL_ERROR_def
  quiet_env_def client_payload_def Let_def sorted_reverse_def

section \<open>Windows and thresholds\<close>

text \<open>
  C1. A fresh session receives one message of 600000 bytes and then nothing until its
  timeout of 30 seconds. Two thresholds were crossed (600000 div 288000 = 2), but the
  test of line 188 runs once per received message: the engine is called once, on the
  first 288000 bytes, and the window of 576000 bytes is never analysed.
\<close>

theorem burst_chunk_one_analysis:
  "websocket_realtime quiet_env ''secret'' (InitJson client_payload)
     [(0, Chunk (replicate 600000 0)), (1, PollTimeout), (2, PollTimeout), (30, PollTimeout)]
   = (Returned,
      \<lparr>buffer = replicate 600000 0, next_window_bytes = 576000,
       sent = [Accept, SendJson (DetectionsMsg []), SendJson TimeoutMsg, Close 1000],
       files = Map.empty, tmp_count = 1, fired = [(288000, 600000)],
       calls = [\<lparr>nchannels = 1, sampwidth = 2, framerate = 48000,
                 frames = replicate 288000 0\<rparr>]\<rparr>)
   \<and> (600000 :: nat) div 288000 = 2"
  by (simp add: run_simps)

text \<open>
  C2. In every session, at any moment, the \<open>i\<close>-th engine call so far (counted from 0)
  was given a file with the handler's constants whose audio is the first
  \<open>(i + 1) * 288000\<close> bytes of the buffer, exactly that many.
\<close>

theorem window_is_cumulative_prefix:
  assumes "websocket_realtime env token ie events = (st, s)" and "i < length (calls s)"
  shows "calls s ! i = \<lparr>nchannels = 1, sampwidth = 2, framerate = 48000,
            frames = take (Suc i * 288000) (buffer s)\<rparr>
       \<and> length (frames (calls s ! i)) = Suc i * 288000"
proof -
  from assms(1) have ok: "windows_ok s" by (rule realtime_windows_ok(1))
  with assms(2) have c: "calls s ! i = window_wav (take (Suc i * WINDOW_BYTES) (buffer s))"
    and f: "i < length (fired s)"
    by (simp_all add: windows_ok_def)
  have "Suc i * WINDOW_BYTES \<le> length (buffer s)"
    using ok f by (rule windows_ok_threshold(3))
  with c show ?thesis
    by (simp add: window_wav_def WINDOW_BYTES_eq SAMPLE_RATE_def CHANNELS_def SAMPLE_WIDTH_def)
qed

text \<open>
A window that spans two messages.
\<close>

theorem window_is_cumulative_prefix_example:
  "websocket_realtime quiet_env ''secret'' (InitJson client_payload)
     [(0, Chunk (replicate 200000 1)), (1, Chunk (replicate 100000 2))]
   = (Waiting,
      \<lparr>buffer = replicate 200000 1 @ replicate 100000 2, next_window_bytes = 576000,
       sent = [Accept, SendJson (DetectionsMsg [])],
       files = Map.empty, tmp_count = 1, fired = [(288000, 300000)],
       calls = [\<lparr>nchannels = 1, sampwidth = 2, framerate = 48000,
                 frames = replicate 200000 1 @ replicate 88000 2\<rparr>]\<rparr>)
   \<and> replicate 200000 (1 :: byte) @ replicate 88000 2
       = take 288000 (replicate 200000 1 @ replicate 100000 2)
   \<and> length (replicate 200000 (1 :: byte) @ replicate 88000 2) = 288000"
proof -
  have run: "websocket_realtime quiet_env ''secret'' (InitJson client_payload)
     [(0, Chunk (replicate 200000 1)), (1, Chunk (replicate 100000 2))]
   = (Waiting,
      \<lparr>buffer = replicate 200000 1 @ replicate 100000 2, next_window_bytes = 576000,
       sent = [Accept, SendJson (DetectionsMsg [])],
       files = Map.empty, tmp_count = 1, fired = [(288000, 300000)],
       calls = [\<lparr>nchannels = 1, sampwidth = 2, framerate = 48000,
                 frames = replicate 200000 1 @ replicate 88000 2\<rparr>]\<rparr>)"
    by (simp add: run_simps)
  from window_is_cumulative_prefix [OF run, of 0] run show ?thesis
    by simp
qed

text \<open>
  C9. In every session the thresholds at which analyses fire are 288000, 576000, ... in
  this order, so they increase strictly by 288000 and none occurs twice; and whenever
  one fires the buffer is at least as long as the threshold.
\<close>

theorem thresholds_step_by_window:
  assumes "websocket_realtime env token ie events = (st, s)"
  shows "map fst (fired s) = map (\<lambda>i. Suc i * 288000) [0..<length (fired s)]
       \<and> sorted_wrt (<) (map fst (fired s))
       \<and> distinct (map fst (fired s))
       \<and> list_all (\<lambda>(t, n). t \<le> n \<and> n \<le> length (buffer s)) (fired s)"
proof -
  from assms have ok: "windows_ok s" by (rule realtime_windows_ok(1))
  have m: "map fst (fired s) = map (\<lambda>i. Suc i * 288000) [0..<length (fired s)]"
    by (rule nth_equalityI) (simp_all add: windows_ok_threshold(1) [OF ok] WINDOW_BYTES_eq)
  have "sorted_wrt (<) (map (\<lambda>i. Suc i * (288000::nat)) [0..<length (fired s)])"
    by (simp add: sorted_wrt_map sorted_wrt_iff_nth_less)
  then have s: "sorted_wrt (<) (map fst (fired s))"
    by (simp only: m)
  then have d: "distinct (map fst (fired s))"
    by (simp add: strict_sorted_iff)
  have "t \<le> n \<and> n \<le> length (buffer s)" if "(t, n) \<in> set (fired s)" for t n
  proof -
    from that obtain i where i: "i < length (fired s)" "fired s ! i = (t, n)"
      by (auto simp: in_set_conv_nth)
    with ok show ?thesis unfolding windows_ok_def
      by (metis fst_conv snd_conv)
  qed
  then have "list_all (\<lambda>(t, n). t \<le> n \<and> n \<le> length (buffer s)) (fired s)"
    by (auto simp: list_all_iff)
  with m s d show ?thesis by blast
qed

text \<open>
Two windows, each reached exactly.
\<close>

theorem thresholds_step_by_window_example:
  "websocket_realtime quiet_env ''secret'' (InitJson client_payload)
     [(0, Chunk (replicate 288000 0)), (1, Chunk (replicate 287999 0)), (2, Chunk [0])]
   = (Waiting,
      \<lparr>buffer = replicate 288000 0 @ replicate 287999 0 @ [0], next_window_bytes = 864000,
       sent = [Accept, SendJson (DetectionsMsg []), SendJson (DetectionsMsg [])],
       files = Map.empty, tmp_count = 2, fired = [(288000, 288000), (576000, 576000)],
       calls = [\<lparr>nchannels = 1, sampwidth = 2, framerate = 48000,
                 frames = replicate 288000 0\<rparr>,
                \<lparr>nchannels = 1, sampwidth = 2, framerate = 48000,
                 frames = replicate 288000 0 @ replicate 287999 0 @ [0]\<rparr>]\<rparr>)
   \<and> sorted_wrt (<) [288000, 576000 :: nat]"
proof -
  have run: "websocket_realtime quiet_env ''secret'' (InitJson client_payload)
     [(0, Chunk (replicate 288000 0)), (1, Chunk (replicate 287999 0)), (2, Chunk [0])]
   = (Waiting,
      \<lparr>buffer = replicate 288000 0 @ replicate 287999 0 @ [0], next_window_bytes = 864000,
       sent = [Accept, SendJson (DetectionsMsg []), SendJson (DetectionsMsg [])],
       files = Map.empty, tmp_count = 2, fired = [(288000, 288000), (576000, 576000)],
       calls = [\<lparr>nchannels = 1, sampwidth = 2, framerate = 48000,
                 frames = replicate 288000 0\<rparr>,
                \<lparr>nchannels = 1, sampwidth = 2, framerate = 48000,
                 frames = replicate 288000 0 @ replicate 287999 0 @ [0]\<rparr>]\<rparr>)"
    by (simp add: run_simps)
  from thresholds_step_by_window [OF run] run show ?thesis
    by simp
qed

section \<open>Temporary files\<close>

text \<open>
  C3. The first window of a session is due and the \<open>wave\<close> calls raise after
  \<open>NamedTemporaryFile\<close> created the file (the disk is full). The handler reports the
  I/O error and returns; the file is still there.
\<close>

theorem failed_write_leaves_file:
  "websocket_realtime (quiet_env\<lparr>wav_write := \<lambda>data. WriteFails ''No space left on device''\<rparr>)
     ''secret'' (InitJson client_payload) [(0, Chunk (replicate 288000 0))]
   = (Returned,
      \<lparr>buffer = replicate 288000 0, next_window_bytes = 288000,
       sent = [Accept, SendJson (ErrorMsg ''I/O error: No space left on device''), Close 1011],
       files = [''/tmp/tmp.wav'' \<mapsto>
                 \<lparr>nchannels = 1, sampwidth = 2, framerate = 48000, frames = []\<rparr>],
       tmp_count = 1, fired = [(288000, 288000)], calls = []\<rparr>)"
  by (simp add: run_simps)

section \<open>How a session ends\<close>

text \<open>
  C4. A session is running, a message arrives before the timeout and makes a window
  due, and the analysis of that window fails (writing the file or the engine). Then,
  whatever would follow, the handler has returned; it sent one error message and closed
  with the internal-error code; all messages before were detections; the failed window
  is the last one that fired, and the engine was called for it at most once.
\<close>

theorem failed_window_ends_session:
  assumes "RealtimeInit p = Some init"
    and "websocket_realtime env (EXPECTED_TOKEN env) (InitJson p) pre = (Waiting, s)"
    and "elapsed < timeout init"
    and "next_window_bytes s \<le> length (buffer s) + length msg"
    and "analysis_fails env init (recording_date env init)
           (take (next_window_bytes s) (buffer s @ msg))"
  shows "\<exists>e s'.
       (\<forall>post. websocket_realtime env (EXPECTED_TOKEN env) (InitJson p)
                 (pre @ (elapsed, Chunk msg) # post) = (Returned, s'))
     \<and> sent s' = sent s @ [SendJson (ErrorMsg e), Close WS_1011_INTERNAL_ERROR]
     \<and> list_all is_detections (messages (sent s))
     \<and> fired s' = fired s @ [(next_window_bytes s, length (buffer s) + length msg)]
     \<and> (calls s' = calls s
          \<or> calls s' = calls s @ [window_wav (take (next_window_bytes s) (buffer s @ msg))])"
proof -
  let ?rd = "recording_date env init"
  let ?s1 = "s\<lparr>buffer := buffer s @ msg\<rparr>"
  from assms(1,2) have alive: "stream_loop env init ?rd pre accepted = (Waiting, s)"
    by (simp add: realtime_streaming)
  with windows_ok_accepted have "alive_inv s"
    using stream_loop_inv by blast
  then have dets: "list_all is_detections (messages (sent s))"
    by (simp add: alive_inv_def)
  from assms(5) have "analysis_fails env init ?rd (take (next_window_bytes ?s1) (buffer ?s1))"
    by simp
  then obtain e s' where w: "window_analysis env init ?rd ?s1 = (False, s')"
    and r: "sent s' = sent s @ [SendJson (ErrorMsg e), Close WS_1011_INTERNAL_ERROR]"
      "fired s' = fired s @ [(next_window_bytes s, length (buffer s) + length msg)]"
      "calls s' = calls s
        \<or> calls s' = calls s @ [window_wav (take (next_window_bytes s) (buffer s @ msg))]"
    using window_analysis_fails [of env init ?rd ?s1] by auto
  have "websocket_realtime env (EXPECTED_TOKEN env) (InitJson p)
          (pre @ (elapsed, Chunk msg) # post) = (Returned, s')" for post
  proof -
    have "websocket_realtime env (EXPECTED_TOKEN env) (InitJson p)
          (pre @ (elapsed, Chunk msg) # post)
        = stream_loop env init ?rd ((elapsed, Chunk msg) # post) s"
      using assms(1) alive by (simp add: realtime_streaming stream_loop_append)
    also have "\<dots> = (Returned, s')"
      using assms(3,4) w by (simp add: stream_loop_chunk_fire)
    finally show ?thesis .
  qed
  with r dets show ?thesis by blast
qed

text \<open>
The engine raises on the second window only; a third window's worth of audio follows.
\<close>

theorem failed_window_ends_session_example:
  "\<exists>e s'. websocket_realtime
       (quiet_env\<lparr>analyze := \<lambda>w la lo d mc.
          if length (frames w) = 576000 then Inl ''boom'' else Inr []\<rparr>)
       ''secret'' (InitJson client_payload)
       [(0, Chunk (replicate 288000 0)), (1, Chunk (replicate 288000 0)),
        (2, Chunk (replicate 288000 0))] = (Returned, s')
     \<and> sent s' = [Accept, SendJson (DetectionsMsg []), SendJson (ErrorMsg e), Close 1011]
     \<and> fired s' = [(288000, 288000), (576000, 576000)]"
proof -
  let ?env = "quiet_env\<lparr>analyze := \<lambda>w la lo d mc.
          if length (frames w) = 576000 then Inl ''boom'' else Inr []\<rparr>"
  let ?init = "\<lparr>lat = 60, lon = 22, date = None, min_conf = 8 / 10, timeout = 30\<rparr>"
  let ?s = "\<lparr>buffer = replicate 288000 0, next_window_bytes = 576000,
       sent = [Accept, SendJson (DetectionsMsg [])],
       files = Map.empty, tmp_count = 1, fired = [(288000, 288000)],
       calls = [\<lparr>nchannels = 1, sampwidth = 2, framerate = 48000,
                 frames = replicate 288000 0\<rparr>]\<rparr>"
  have h1: "RealtimeInit client_payload = Some ?init"
    by (simp add: client_payload_def)
  have h2: "websocket_realtime ?env (EXPECTED_TOKEN ?env) (InitJson client_payload)
      [(0, Chunk (replicate 288000 0))] = (Waiting, ?s)"
    by (simp add: run_simps)
  have h3: "1 < timeout ?init"
    by simp
  have h4: "next_window_bytes ?s \<le> length (buffer ?s) + length (replicate 288000 (0::byte))"
    by simp
  have h5: "analysis_fails ?env ?init (recording_date ?env ?init)
      (take (next_window_bytes ?s) (buffer ?s @ replicate 288000 0))"
    by (simp add: analysis_fails_def quiet_env_def window_wav_def)
  from failed_window_ends_session [OF h1 h2 h3 h4 h5] obtain e s' where
    "\<forall>post. websocket_realtime ?env (EXPECTED_TOKEN ?env) (InitJson client_payload)
        ([(0, Chunk (replicate 288000 0))] @ (1, Chunk (replicate 288000 0)) # post) = (Returned, s')"
    and "sent s' = sent ?s @ [SendJson (ErrorMsg e), Close WS_1011_INTERNAL_ERROR]"
    and "fired s' = fired ?s @ [(next_window_bytes ?s, length (buffer ?s) + length (replicate 288000 (0::byte)))]"
    by blast
  then have "websocket_realtime ?env ''secret'' (InitJson client_payload)
       [(0, Chunk (replicate 288000 0)), (1, Chunk (replicate 288000 0)),
        (2, Chunk (replicate 288000 0))] = (Returned, s')
     \<and> sent s' = [Accept, SendJson (DetectionsMsg []), SendJson (ErrorMsg e), Close 1011]
     \<and> fired s' = [(288000, 288000), (576000, 576000)]"
    by (simp add: quiet_env_def WS_1011_INTERNAL_ERROR_def)
  then show ?thesis by blast
qed

text \<open>
  C5. A disconnect during the wait for the init payload ends the handler with a close
  frame of code 1008 and no message. A disconnect during a wait for audio, in a running
  session, ends the handler in the state it had: nothing more is sent, and what follows
  is not read.
\<close>

theorem disconnect_is_silent:
  assumes "RealtimeInit p = Some init"
    and "websocket_realtime env (EXPECTED_TOKEN env) (InitJson p) pre = (Waiting, s)"
    and "elapsed < timeout init"
  shows "websocket_realtime env (EXPECTED_TOKEN env) InitDisconnect events
           = (Returned, accepted\<lparr>sent := [Accept, Close WS_1008_POLICY_VIOLATION]\<rparr>)
       \<and> messages [Accept, Close WS_1008_POLICY_VIOLATION] = []
       \<and> websocket_realtime env (EXPECTED_TOKEN env) (InitJson p)
           (pre @ (elapsed, Disconnect) # post) = (Returned, s)"
proof -
  have "websocket_realtime env (EXPECTED_TOKEN env) InitDisconnect events
           = (Returned, accepted\<lparr>sent := [Accept, Close WS_1008_POLICY_VIOLATION]\<rparr>)"
    by (simp add: websocket_realtime_def accepted_def)
  moreover have "websocket_realtime env (EXPECTED_TOKEN env) (InitJson p)
           (pre @ (elapsed, Disconnect) # post) = (Returned, s)"
    using assms by (simp add: realtime_streaming stream_loop_append stream_loop_disconnect)
  ultimately show ?thesis by simp
qed

theorem disconnect_is_silent_example:
  "websocket_realtime quiet_env ''secret'' InitDisconnect [(0, Chunk (replicate 288000 0))]
     = (Returned, accepted\<lparr>sent := [Accept, Close 1008]\<rparr>)
   \<and> websocket_realtime quiet_env ''secret'' (InitJson client_payload)
       [(0, Chunk (replicate 288000 0)), (1, Disconnect), (2, Chunk (replicate 288000 0))]
     = (Returned,
        \<lparr>buffer = replicate 288000 0, next_window_bytes = 576000,
         sent = [Accept, SendJson (DetectionsMsg [])],
         files = Map.empty, tmp_count = 1, fired = [(288000, 288000)],
         calls = [\<lparr>nchannels = 1, sampwidth = 2, framerate = 48000,
                   frames = replicate 288000 0\<rparr>]\<rparr>)"
proof -
  let ?init = "\<lparr>lat = 60, lon = 22, date = None, min_conf = 8 / 10, timeout = 30\<rparr>"
  let ?s = "\<lparr>buffer = replicate 288000 0, next_window_bytes = 576000,
       sent = [Accept, SendJson (DetectionsMsg [])],
       files = Map.empty, tmp_count = 1, fired = [(288000, 288000)],
       calls = [\<lparr>nchannels = 1, sampwidth = 2, framerate = 48000,
                 frames = replicate 288000 0\<rparr>]\<rparr>"
  have h1: "RealtimeInit client_payload = Some ?init"
    by (simp add: client_payload_def)
  have h2: "websocket_realtime quiet_env (EXPECTED_TOKEN quiet_env) (InitJson client_payload)
      [(0, Chunk (replicate 288000 0))] = (Waiting, ?s)"
    by (simp add: run_simps)
  have h3: "1 < timeout ?init"
    by simp
  from disconnect_is_silent [OF h1 h2 h3,
      of "[(0, Chunk (replicate 288000 0))]" "[(2, Chunk (replicate 288000 0))]"]
  show ?thesis
    by (simp add: quiet_env_def WS_1008_POLICY_VIOLATION_def)
qed

text \<open>
  C6. After a valid init payload, when every turn before the timeout ends with the poll
  timeout or an empty binary message, and then the clock reads the timeout or more, the
  handler returns having sent the timeout message and closed with code 1000: the
  timeout message is its only message, and the session state is the initial one.
\<close>

theorem silent_session_times_out:
  assumes "RealtimeInit p = Some init"
    and "list_all (\<lambda>(e, r). e < timeout init \<and> silent r) pre"
    and "timeout init \<le> elapsed"
  shows "websocket_realtime env (EXPECTED_TOKEN env) (InitJson p) (pre @ (elapsed, r) # post)
           = (Returned,
              accepted\<lparr>sent := [Accept, SendJson TimeoutMsg, Close WS_1000_NORMAL_CLOSURE]\<rparr>)
       \<and> messages [Accept, SendJson TimeoutMsg, Close WS_1000_NORMAL_CLOSURE] = [TimeoutMsg]"
proof -
  let ?rd = "recording_date env init"
  from assms(2) have "stream_loop env init ?rd pre accepted = (Waiting, accepted)"
  proof (induction pre)
    case Nil
    then show ?case by simp
  next
    case (Cons ev pre)
    obtain e r where ev: "ev = (e, r)" by (cases ev)
    with Cons.prems have lt: "e < timeout init" and q: "silent r"
      and rest: "list_all (\<lambda>(e, r). e < timeout init \<and> silent r) pre"
      by simp_all
    from q have "stream_loop env init ?rd ((e, r) # pre) accepted
        = stream_loop env init ?rd pre accepted"
    proof (cases r)
      case (Chunk msg)
      with q have "msg = []" by simp
      moreover have "accepted\<lparr>buffer := buffer accepted @ []\<rparr> = accepted"
        by simp
      moreover have "length (buffer accepted) + length ([] :: byte list) < next_window_bytes accepted"
        by (simp add: accepted_def WINDOW_BYTES_eq)
      ultimately show ?thesis
        using Chunk lt stream_loop_chunk_below [of e init accepted "[]"] by simp
    next
      case PollTimeout
      with lt show ?thesis by (simp add: stream_loop_poll)
    qed simp_all
    with ev Cons.IH [OF rest] show ?case by simp
  qed
  then have "websocket_realtime env (EXPECTED_TOKEN env) (InitJson p) (pre @ (elapsed, r) # post)
      = stream_loop env init ?rd ((elapsed, r) # post) accepted"
    using assms(1) by (simp add: realtime_streaming stream_loop_append)
  with assms(3) show ?thesis
    by (simp add: stream_loop_timeout accepted_def)
qed

theorem silent_session_times_out_example:
  "websocket_realtime quiet_env ''secret'' (InitJson client_payload)
     [(1, PollTimeout), (2, Chunk []), (29, PollTimeout), (30, Chunk (replicate 288000 0)),
      (31, Chunk (replicate 288000 0))]
   = (Returned, accepted\<lparr>sent := [Accept, SendJson TimeoutMsg, Close 1000]\<rparr>)"
proof -
  let ?init = "\<lparr>lat = 60, lon = 22, date = None, min_conf = 8 / 10, timeout = 30\<rparr>"
  have h1: "RealtimeInit client_payload = Some ?init"
    by (simp add: client_payload_def)
  have h2: "list_all (\<lambda>(e, r). e < timeout ?init \<and> silent r)
      [(1, PollTimeout), (2, Chunk []), (29, PollTimeout)]"
    by simp
  have h3: "timeout ?init \<le> 30"
    by simp
  from silent_session_times_out [OF h1 h2 h3, of quiet_env "Chunk (replicate 288000 0)"
      "[(31, Chunk (replicate 288000 0))]"]
  show ?thesis
    by (simp add: quiet_env_def WS_1000_NORMAL_CLOSURE_def)
qed

text \<open>
  A first message that \<open>receive_json\<close> decodes and \<open>RealtimeInit\<close> rejects (a
  value that is no object, a required key missing, a value out of range or of the
  wrong kind) gets the error message \<open>Invalid init payload\<close> and a close frame of
  code 1008; the buffer stays empty, no window fires and the engine is never called,
  whatever the client sends afterwards.
\<close>

theorem invalid_init_rejected:
  assumes "RealtimeInit p = None"
  shows "websocket_realtime env (EXPECTED_TOKEN env) (InitJson p) events
           = (Returned,
              accepted\<lparr>sent := [Accept, SendJson (ErrorMsg ''Invalid init payload''),
                                 Close WS_1008_POLICY_VIOLATION]\<rparr>)
       \<and> buffer accepted = [] \<and> fired accepted = [] \<and> calls accepted = []"
  using assms by (simp add: websocket_realtime_def accepted_def)

text \<open>
The payload without \<open>lon\<close>.
\<close>

theorem invalid_init_rejected_example:
  "RealtimeInit (Mapping \<lparr>lat_field = Value 60, lon_field = Missing, date_field = Missing,
       min_conf_field = Missing, timeout_field = Missing\<rparr>) = None
   \<and> websocket_realtime quiet_env ''secret''
       (InitJson (Mapping \<lparr>lat_field = Value 60, lon_field = Missing, date_field = Missing,
          min_conf_field = Missing, timeout_field = Missing\<rparr>))
       [(0, Chunk (replicate 288000 0))]
     = (Returned,
        accepted\<lparr>sent := [Accept, SendJson (ErrorMsg ''Invalid init payload''), Close 1008]\<rparr>)"
proof -
  have h: "RealtimeInit (Mapping \<lparr>lat_field = Value 60, lon_field = Missing,
      date_field = Missing, min_conf_field = Missing, timeout_field = Missing\<rparr>) = None"
    by simp
  from invalid_init_rejected [OF h, of quiet_env "[(0, Chunk (replicate 288000 0))]"] h
  show ?thesis
    by (simp add: quiet_env_def WS_1008_POLICY_VIOLATION_def)
qed

text \<open>
  A first frame that \<open>receive_json\<close> cannot decode: line 138 catches only the
  timeout and the disconnect, so the exception leaves the handler.
\<close>

lemma undecodable_first_frame:
  "websocket_realtime env (EXPECTED_TOKEN env) (InitRaises e) events = (Raised e, accepted)"
  by (simp add: websocket_realtime_def)

text \<open>
  C8. The first frame of a session is the text \<open>not json\<close>, which is no valid init
  payload; audio follows. \<open>receive_json\<close> raises on it and the handler ends with that
  exception: it has sent the handshake only, neither the error message
  \<open>Invalid init payload\<close> nor a close frame of code 1008. No audio is appended or
  analysed.
\<close>

theorem undecodable_first_frame_unanswered:
  "websocket_realtime quiet_env ''secret''
     (InitRaises ''JSONDecodeError: Expecting value: line 1 column 1 (char 0)'')
     [(0, Chunk (replicate 288000 0))]
   = (Raised ''JSONDecodeError: Expecting value: line 1 column 1 (char 0)'',
      \<lparr>buffer = [], next_window_bytes = 288000, sent = [Accept],
       files = Map.empty, tmp_count = 0, fired = [], calls = []\<rparr>)
   \<and> messages [Accept] = []"
  using undecodable_first_frame [of quiet_env]
  by (simp add: run_simps)

end
